theory Spec2Isabelle
  imports Complex_Main "HOL-Library.Sublist"
begin

section \<open>Python strings\<close>

text \<open>
  A Python \<open>str\<close> is a sequence of Unicode code points, and \<open>len\<close>, slicing,
  \<open>rfind\<close> and \<open>strip\<close> all count code points. A string is therefore a list of
  code points (natural numbers); \<open>py\<close> turns a literal into one.
\<close>

type_synonym pystr = "nat list"

definition py :: "string \<Rightarrow> pystr" where
  "py s = map of_char s"

text \<open>
  \<open>str.isspace\<close> of one character: the code points CPython classifies as whitespace
  (U+0009..U+000D, U+001C..U+0020, U+0085, U+00A0, U+1680, U+2000..U+200A, U+2028,
  U+2029, U+202F, U+205F, U+3000).
\<close>

definition isspace :: "nat \<Rightarrow> bool" where
  "isspace c \<longleftrightarrow>
     (9 \<le> c \<and> c \<le> 13) \<or> (28 \<le> c \<and> c \<le> 32) \<or> c = 133 \<or> c = 160 \<or>
     c = 5760 \<or> (8192 \<le> c \<and> c \<le> 8202) \<or> c = 8232 \<or> c = 8233 \<or>
     c = 8239 \<or> c = 8287 \<or> c = 12288"

text \<open>\<open>s.strip()\<close>: leading and trailing whitespace removed.\<close>

definition strip :: "pystr \<Rightarrow> pystr" where
  "strip s = rev (dropWhile isspace (rev (dropWhile isspace s)))"

text \<open>
  \<open>s.rfind(c)\<close> for a one-character needle: the highest index holding \<open>c\<close>, or
  \<open>-1\<close>. The scan runs left to right and remembers the latest hit.
\<close>

primrec rfind_scan :: "nat \<Rightarrow> pystr \<Rightarrow> int \<Rightarrow> int \<Rightarrow> int" where
  "rfind_scan c [] i found = found"
| "rfind_scan c (x # xs) i found = rfind_scan c xs (i + 1) (if x = c then i else found)"

definition rfind :: "pystr \<Rightarrow> nat \<Rightarrow> int" where
  "rfind s c = rfind_scan c s 0 (- 1)"

text \<open>
  \<open>xs[a:b]\<close>: a negative bound counts from the end, every bound is clamped into
  \<open>0..len(xs)\<close>, and the slice is empty when the lower bound is not below the upper.
\<close>

definition slice_index :: "int \<Rightarrow> nat \<Rightarrow> nat" where
  "slice_index i n = (if i < 0 then nat (max (i + int n) 0) else min (nat i) n)"

definition py_slice :: "'a list \<Rightarrow> int \<Rightarrow> int \<Rightarrow> 'a list" where
  "py_slice xs a b =
     (let lo = slice_index a (length xs); hi = slice_index b (length xs)
      in if lo < hi then take (hi - lo) (drop lo xs) else [])"

section \<open>The chunker (utils/document\_processor.py)\<close>

text \<open>
  One pass of the body of the \<open>while\<close> loop of \<open>chunk_text\<close>, up to the point where
  \<open>end\<close> and \<open>chunk\<close> are final: the raw window, and the cut after the last full
  stop (code point 46) or newline (code point 10) when the window stops short of the end
  of the text. The test \<open>last_break > chunk_size * 0.5\<close> is taken over the reals. Python
  converts \<open>chunk_size\<close> to a double first: the two tests agree for every \<open>chunk_size\<close>
  of magnitude below \<open>2^53\<close>, and for a magnitude of \<open>2^1024\<close> or more Python raises
  \<open>OverflowError\<close>, which this definition does not represent.
\<close>

definition chunk_window :: "pystr \<Rightarrow> int \<Rightarrow> int \<Rightarrow> int \<times> pystr" where
  "chunk_window text chunk_size start =
     (let end = start + chunk_size;
          chunk = py_slice text start end
      in if end < int (length text) then
           (let last_period = rfind chunk 46;
                last_newline = rfind chunk 10;
                last_break = max last_period last_newline
            in if real_of_int last_break > real_of_int chunk_size * 0.5
               then (start + last_break + 1, py_slice text start (start + last_break + 1))
               else (end, chunk))
         else (end, chunk))"

text \<open>
  The \<open>while start < text_length\<close> loop. Nothing in the source bounds the number of
  iterations, so the loop is a partial function: \<open>None\<close> is a run that never returns.
\<close>

partial_function (option) chunk_loop ::
  "pystr \<Rightarrow> int \<Rightarrow> int \<Rightarrow> int \<Rightarrow> pystr list \<Rightarrow> pystr list option" where
  "chunk_loop text chunk_size chunk_overlap start chunks =
     (if start < int (length text) then
        (case chunk_window text chunk_size start of
           (end, chunk) \<Rightarrow>
             chunk_loop text chunk_size chunk_overlap
               (if end < int (length text) then end - chunk_overlap else int (length text))
               (if strip chunk \<noteq> [] then chunks @ [strip chunk] else chunks))
      else Some chunks)"

declare chunk_loop.simps [code]

definition chunk_text :: "pystr \<Rightarrow> int \<Rightarrow> int \<Rightarrow> pystr list option" where
  "chunk_text text chunk_size chunk_overlap =
     (if text = [] \<or> strip text = [] then Some []
      else chunk_loop text chunk_size chunk_overlap 0 [])"

text \<open>
  Written from the specification's words, for comparison with \<open>rfind\<close>: the position of
  the last sentence terminator or newline within a window, \<open>-1\<close> when it has none.
\<close>

definition is_break :: "nat \<Rightarrow> bool" where
  "is_break c \<longleftrightarrow> c = 46 \<or> c = 10"

definition last_break_position :: "pystr \<Rightarrow> int" where
  "last_break_position w =
     (if \<exists>i < length w. is_break (w ! i)
      then int (Max {i. i < length w \<and> is_break (w ! i)})
      else - 1)"

text \<open>
  \<open>last_at P w b\<close>: \<open>b\<close> is the index of the last element of \<open>w\<close> satisfying
  \<open>P\<close>, or \<open>-1\<close> when no element does.
\<close>

definition last_at :: "(nat \<Rightarrow> bool) \<Rightarrow> pystr \<Rightarrow> int \<Rightarrow> bool" where
  "last_at P w b \<longleftrightarrow>
     (b = - 1 \<and> (\<forall>i < length w. \<not> P (w ! i))) \<or>
     (0 \<le> b \<and> nat b < length w \<and> P (w ! nat b) \<and> (\<forall>j. nat b < j \<and> j < length w \<longrightarrow> \<not> P (w ! j)))"

section \<open>Errors, external calls and the call trace\<close>

text \<open>
  A raised exception is a value. \<open>Exception\<close> stands for an exception that is an instance
  of Python's \<open>Exception\<close> class, with its message; \<open>HTTPException\<close> is the one the router
  raises itself, with its status code and detail, and is an \<open>Exception\<close> too.
  \<open>BaseException\<close> stands for an exception that is not an instance of \<open>Exception\<close>
  (\<open>KeyboardInterrupt\<close>, \<open>SystemExit\<close>, a panic inside a native extension of a
  collaborator): \<open>except Exception\<close> does not catch it.
\<close>

datatype error = Exception pystr | HTTPException nat pystr | BaseException pystr

definition is_exception :: "error \<Rightarrow> bool" where
  "is_exception e = (case e of BaseException msg \<Rightarrow> False | _ \<Rightarrow> True)"

text \<open>\<open>str(i)\<close> of a natural number, as an f-string prints it.\<close>

function str_nat :: "nat \<Rightarrow> pystr" where
  "str_nat n = (if n < 10 then [48 + n] else str_nat (n div 10) @ [48 + n mod 10])"
  by pat_completeness auto
termination
  by (relation "measure id") auto

declare str_nat.simps [simp del]

text \<open>
  \<open>str(e)\<close>: the message of the exception; for an \<open>HTTPException\<close> the status code, a
  colon and the detail.
\<close>

definition error_text :: "error \<Rightarrow> pystr" where
  "error_text e =
     (case e of
        Exception msg \<Rightarrow> msg
      | HTTPException code detail \<Rightarrow> str_nat code @ py '': '' @ detail
      | BaseException msg \<Rightarrow> msg)"

text \<open>
  Every call that leaves the process is recorded, in order, in a call trace. A service
  function takes the trace so far and returns its result, or the exception it raises,
  together with the extended trace.
\<close>

datatype call =
    GetOrCreateCollection pystr
  | Count pystr
  | Encode "pystr list"
  | Query pystr "real list list" int
  | LoadChatbot
  | Generate pystr
  | Print pystr

type_synonym 'a io = "call list \<Rightarrow> (error + 'a) \<times> call list"

definition io_return :: "'a \<Rightarrow> 'a io" where
  "io_return v trace = (Inr v, trace)"

definition io_raise :: "error \<Rightarrow> 'a io" where
  "io_raise e trace = (Inl e, trace)"

definition io_bind :: "'a io \<Rightarrow> ('a \<Rightarrow> 'b io) \<Rightarrow> 'b io" where
  "io_bind m f trace =
     (case m trace of (Inl e, trace') \<Rightarrow> (Inl e, trace') | (Inr v, trace') \<Rightarrow> f v trace')"

text \<open>
  \<open>try: m  except Exception as e: h e\<close>. The handler runs for an instance of
  \<open>Exception\<close> only; any other exception leaves the statement as it came.
\<close>

definition try_except :: "'a io \<Rightarrow> (error \<Rightarrow> 'a io) \<Rightarrow> 'a io" where
  "try_except m h trace =
     (case m trace of
        (Inl e, trace') \<Rightarrow> if is_exception e then h e trace' else (Inl e, trace')
      | (Inr v, trace') \<Rightarrow> (Inr v, trace'))"

text \<open>
  One external call: the collaborator answers (its answer may depend on everything that
  was asked before, so a collaborator with state is covered) and the call is recorded.
\<close>

definition external :: "call \<Rightarrow> (call list \<Rightarrow> error + 'a) \<Rightarrow> 'a io" where
  "external c answer trace = (answer trace, trace @ [c])"

section \<open>The vector store service (services/vector\_db\_service.py)\<close>

type_synonym metadata = "pystr \<rightharpoonup> pystr"

text \<open>
  What \<open>collection.query\<close> returns: for each key a list with one entry per query
  embedding, or \<open>None\<close>. A metadata entry may itself be \<open>None\<close>.
\<close>

record query_result =
  qr_documents :: "pystr list list option"
  qr_metadatas :: "metadata option list list option"
  qr_distances :: "real list list option"

text \<open>
  The collaborators: the Chroma client, the embedding model, the generation model, and the
  standard output that \<open>print\<close> writes to.
\<close>

record backend =
  chroma_get_or_create :: "pystr \<Rightarrow> call list \<Rightarrow> error + unit"
  collection_count :: "pystr \<Rightarrow> call list \<Rightarrow> error + int"
  model_encode :: "pystr list \<Rightarrow> call list \<Rightarrow> error + real list list"
  collection_query :: "pystr \<Rightarrow> real list list \<Rightarrow> int \<Rightarrow> call list \<Rightarrow> error + query_result"
  llm_load :: "call list \<Rightarrow> error + unit"
  llm_generate :: "pystr \<Rightarrow> call list \<Rightarrow> error + pystr"
  stdout_print :: "pystr \<Rightarrow> call list \<Rightarrow> error + unit"

text \<open>The dictionary \<open>query_documents\<close> returns, with its three keys.\<close>

record retrieval =
  res_documents :: "pystr list"
  res_metadatas :: "metadata option list"
  res_distances :: "real list"

definition empty_retrieval :: retrieval where
  "empty_retrieval = \<lparr>res_documents = [], res_metadatas = [], res_distances = []\<rparr>"

text \<open>A collection is referred to by its name, \<open>subject_<id>\<close>.\<close>

definition get_or_create_collection :: "backend \<Rightarrow> pystr \<Rightarrow> pystr io" where
  "get_or_create_collection b subject_id =
     (let collection_name = py ''subject_'' @ subject_id
      in io_bind (external (GetOrCreateCollection collection_name)
                    (chroma_get_or_create b collection_name))
           (\<lambda>_. io_return collection_name))"

text \<open>\<open>results[k][0] if results[k] else []\<close>\<close>

definition first_or_empty :: "'a list list option \<Rightarrow> 'a list" where
  "first_or_empty field = (case field of Some (x # _) \<Rightarrow> x | _ \<Rightarrow> [])"

text \<open>The body of the \<open>try\<close> block of \<open>query_documents\<close>.\<close>

definition query_documents_try :: "backend \<Rightarrow> pystr \<Rightarrow> pystr \<Rightarrow> int \<Rightarrow> retrieval io" where
  "query_documents_try b subject_id query n_results =
     io_bind (get_or_create_collection b subject_id) (\<lambda>collection.
     io_bind (external (Count collection) (collection_count b collection)) (\<lambda>count.
       if count = 0 then io_return empty_retrieval
       else
         io_bind (external (Encode [query]) (model_encode b [query])) (\<lambda>query_embedding.
         io_bind (external (Count collection) (collection_count b collection)) (\<lambda>count'.
         io_bind (external (Query collection query_embedding (min n_results count'))
                    (collection_query b collection query_embedding (min n_results count')))
           (\<lambda>results.
              io_return \<lparr>res_documents = first_or_empty (qr_documents results),
                         res_metadatas = first_or_empty (qr_metadatas results),
                         res_distances = first_or_empty (qr_distances results)\<rparr>)))))"

text \<open>
  The handler prints the error and returns the empty result. An exception that \<open>print\<close>
  raises leaves the handler, and with it \<open>query_documents\<close>.
\<close>

definition query_documents_except :: "backend \<Rightarrow> error \<Rightarrow> retrieval io" where
  "query_documents_except b e =
     (let message = py ''Error querying documents: '' @ error_text e
      in io_bind (external (Print message) (stdout_print b message))
           (\<lambda>_. io_return empty_retrieval))"

definition query_documents :: "backend \<Rightarrow> pystr \<Rightarrow> pystr \<Rightarrow> int \<Rightarrow> retrieval io" where
  "query_documents b subject_id query n_results =
     try_except (query_documents_try b subject_id query n_results)
       (query_documents_except b)"

text \<open>The kinds of external call that \<open>query_documents\<close> makes.\<close>

definition retrieval_call :: "call \<Rightarrow> bool" where
  "retrieval_call c =
     (case c of
        GetOrCreateCollection name \<Rightarrow> True
      | Count name \<Rightarrow> True
      | Encode texts \<Rightarrow> True
      | Query name embedding k \<Rightarrow> True
      | Print message \<Rightarrow> True
      | _ \<Rightarrow> False)"

section \<open>The chatbot service (services/chatbot\_service.py)\<close>

definition sentinel :: pystr where
  "sentinel = py ''No information found in the subject documents.''"

definition create_context :: "pystr list \<Rightarrow> pystr" where
  "create_context documents =
     (if documents = [] then []
      else foldl (\<lambda>context (i, doc). context @ str_nat i @ py ''. '' @ doc @ [10, 10])
             (py ''Context:'' @ [10]) (enumerate 1 (take 5 documents)))"

text \<open>The prompt; code point 39 is the apostrophe, 34 the double quote, 10 the newline.\<close>

definition build_prompt :: "pystr \<Rightarrow> pystr \<Rightarrow> pystr" where
  "build_prompt question context =
     py ''Based on the following context, answer the question. If the context doesn'' @ [39] @
     py ''t contain relevant information, say '' @ [34] @
     py ''No information found in the subject documents.'' @ [34] @ [10, 10] @
     context @ [10, 10] @ py ''Question: '' @ question @ [10] @ py ''Answer:''"

text \<open>
  Tokenizing the prompt, \<open>model.generate\<close> and decoding the output are one external
  call, \<open>Generate\<close>, that returns the decoded text.
\<close>

definition generate_answer :: "backend \<Rightarrow> pystr \<Rightarrow> pystr \<Rightarrow> pystr io" where
  "generate_answer b question context =
     (if context = [] then io_return sentinel
      else
        (let prompt = build_prompt question context
         in io_bind (external (Generate prompt) (llm_generate b prompt)) (\<lambda>answer.
              if answer = [] \<or> length (strip answer) < 3 then io_return sentinel
              else io_return answer)))"

text \<open>The loop over \<open>metadatas\<close> with its two variables \<open>sources\<close> and \<open>seen_files\<close>.\<close>

primrec sources_loop :: "metadata option list \<Rightarrow> pystr list \<Rightarrow> pystr set \<Rightarrow> pystr list" where
  "sources_loop [] sources seen_files = sources"
| "sources_loop (metadata # rest) sources seen_files =
     (case metadata of
        None \<Rightarrow> sources_loop rest sources seen_files
      | Some entry \<Rightarrow>
          (case entry (py ''filename'') of
             None \<Rightarrow> sources_loop rest sources seen_files
           | Some filename \<Rightarrow>
               if filename \<notin> seen_files
               then sources_loop rest (sources @ [filename]) (insert filename seen_files)
               else sources_loop rest sources seen_files))"

record answer_record =
  ans_answer :: pystr
  ans_sources :: "pystr list"

definition answer_question :: "backend \<Rightarrow> pystr \<Rightarrow> pystr \<Rightarrow> int \<Rightarrow> answer_record io" where
  "answer_question b subject_id question n_results =
     io_bind (query_documents b subject_id question n_results) (\<lambda>results.
       let documents = res_documents results;
           metadatas = res_metadatas results
       in if documents = [] then io_return \<lparr>ans_answer = sentinel, ans_sources = []\<rparr>
          else
            (let context = create_context documents
             in io_bind (generate_answer b question context) (\<lambda>answer.
                  io_return \<lparr>ans_answer = answer,
                             ans_sources = sources_loop metadatas [] {}\<rparr>)))"

section \<open>The chat route (routers/chat.py)\<close>

text \<open>
  A subject of the registry, as far as the route reads it: its \<open>documents\<close> list, which
  \<open>subject.get("documents")\<close> allows to be missing. A document is kept as its filename.
\<close>

record subject =
  subject_name :: pystr
  subject_documents :: "pystr list option"

record chat_request =
  req_subject_id :: pystr
  req_question :: pystr

record chat_response =
  resp_subject_id :: pystr
  resp_question :: pystr
  resp_answer :: pystr
  resp_sources :: "pystr list"

text \<open>
  \<open>get_chatbot_service()\<close> keeps one service for the whole process: it loads the
  generation model, which can fail, only while no earlier load has succeeded. The service
  exists when some \<open>LoadChatbot\<close> call of the trace was answered without an error.
\<close>

definition chatbot_loaded :: "backend \<Rightarrow> call list \<Rightarrow> bool" where
  "chatbot_loaded b trace =
     list_ex (\<lambda>n. trace ! n = LoadChatbot \<and> llm_load b (take n trace) = Inr ())
       [0 ..< length trace]"

definition get_chatbot_service :: "backend \<Rightarrow> unit io" where
  "get_chatbot_service b trace =
     (if chatbot_loaded b trace then io_return () trace
      else external LoadChatbot (llm_load b) trace)"

definition ask_question :: "backend \<Rightarrow> (pystr \<rightharpoonup> subject) \<Rightarrow> chat_request \<Rightarrow> chat_response io" where
  "ask_question b subjects request =
     (case subjects (req_subject_id request) of
        None \<Rightarrow> io_raise (HTTPException 404 (py ''Subject not found''))
      | Some subject \<Rightarrow>
          if subject_documents subject = None \<or> subject_documents subject = Some []
          then io_return \<lparr>resp_subject_id = req_subject_id request,
                          resp_question = req_question request,
                          resp_answer = sentinel,
                          resp_sources = []\<rparr>
          else
            try_except
              (io_bind (get_chatbot_service b) (\<lambda>chatbot.
               io_bind (answer_question b (req_subject_id request) (req_question request) 5)
                 (\<lambda>result.
                    io_return \<lparr>resp_subject_id = req_subject_id request,
                               resp_question = req_question request,
                               resp_answer = ans_answer result,
                               resp_sources = ans_sources result\<rparr>)))
              (\<lambda>e. io_raise (HTTPException 500 (py ''Error processing question: '' @ error_text e))))"

section \<open>Reference definitions and example collaborators\<close>

text \<open>
  Written from the specification's words, for comparison with \<open>sources_loop\<close>: the
  filenames of the metadata entries in retrieved order, entries that are missing or have
  no filename left out, and a list reduced to the first occurrence of each element.
\<close>

definition filenames :: "metadata option list \<Rightarrow> pystr list" where
  "filenames metadatas =
     List.map_filter
       (\<lambda>metadata. case metadata of None \<Rightarrow> None | Some entry \<Rightarrow> entry (py ''filename''))
       metadatas"

primrec first_seen :: "'a list \<Rightarrow> 'a list" where
  "first_seen [] = []"
| "first_seen (x # xs) = x # filter (\<lambda>y. y \<noteq> x) (first_seen xs)"

text \<open>
  Collaborators with fixed answers, for the examples: every collection holds \<open>n\<close>
  chunks, a query returns \<open>res\<close>, the generation model answers \<open>out\<close>, and printing
  succeeds.
\<close>

definition fixed_backend :: "error + int \<Rightarrow> query_result \<Rightarrow> error + pystr \<Rightarrow> backend" where
  "fixed_backend n res out =
     \<lparr>chroma_get_or_create = (\<lambda>name trace. Inr ()),
      collection_count = (\<lambda>name trace. n),
      model_encode = (\<lambda>texts trace. Inr [[0]]),
      collection_query = (\<lambda>name embedding k trace. Inr res),
      llm_load = (\<lambda>trace. Inr ()),
      llm_generate = (\<lambda>prompt trace. out),
      stdout_print = (\<lambda>message trace. Inr ())\<rparr>"

definition meta_of :: "string \<Rightarrow> metadata" where
  "meta_of name = [py ''filename'' \<mapsto> py name]"

text \<open>
  A query result for the examples: three chunks of \<open>A.pdf\<close> and one of \<open>B.pdf\<close>, together
  with an entry whose metadata is missing and one whose metadata has no filename; and the
  dictionary \<open>query_documents\<close> makes of it.
\<close>

definition example_results :: query_result where
  "example_results =
     \<lparr>qr_documents = Some [[py ''a1'', py ''x'', py ''a2'', py ''y'', py ''a3'', py ''b1'']],
      qr_metadatas = Some [[Some (meta_of ''A.pdf''), None, Some (meta_of ''A.pdf''),
                            Some [py ''file_type'' \<mapsto> py ''pdf''],
                            Some (meta_of ''A.pdf''), Some (meta_of ''B.pdf'')]],
      qr_distances = Some [[1, 2, 3, 4, 5, 6]]\<rparr>"

definition example_retrieval :: retrieval where
  "example_retrieval =
     \<lparr>res_documents = [py ''a1'', py ''x'', py ''a2'', py ''y'', py ''a3'', py ''b1''],
      res_metadatas = [Some (meta_of ''A.pdf''), None, Some (meta_of ''A.pdf''),
                       Some [py ''file_type'' \<mapsto> py ''pdf''],
                       Some (meta_of ''A.pdf''), Some (meta_of ''B.pdf'')],
      res_distances = [1, 2, 3, 4, 5, 6]\<rparr>"

section \<open>Facts about \<open>strip\<close> and the chunking loop\<close>

lemma strip_length: "length (strip s) \<le> length s"
  unfolding strip_def
  by (metis length_rev length_dropWhile_le order_trans)

lemma rstrip_prefix: "u = rev (dropWhile P (rev u)) @ rev (takeWhile P (rev u))"
proof -
  have "rev (takeWhile P (rev u) @ dropWhile P (rev u)) = rev (rev u)"
    by (simp only: takeWhile_dropWhile_id)
  then show ?thesis by (simp only: rev_append rev_rev_ident)
qed

lemma strip_head:
  assumes "strip s \<noteq> []"
  shows "\<not> isspace (hd (strip s))"
proof -
  define u where "u = dropWhile isspace s"
  define t where "t = rev (dropWhile isspace (rev u))"
  have ts: "t = strip s" by (simp add: t_def u_def strip_def)
  have "u = t @ rev (takeWhile isspace (rev u))"
    unfolding t_def by (rule rstrip_prefix)
  moreover have "t \<noteq> []" using assms ts by simp
  ultimately have "hd u = hd t" and "u \<noteq> []" by (metis hd_append2, auto)
  moreover have "\<not> isspace (hd u)" using \<open>u \<noteq> []\<close> unfolding u_def by (rule hd_dropWhile)
  ultimately show ?thesis using ts by simp
qed

lemma strip_last:
  assumes "strip s \<noteq> []"
  shows "\<not> isspace (last (strip s))"
proof -
  have "dropWhile isspace (rev (dropWhile isspace s)) \<noteq> []"
    using assms by (simp add: strip_def)
  then have "\<not> isspace (hd (dropWhile isspace (rev (dropWhile isspace s))))"
    by (rule hd_dropWhile)
  then show ?thesis using assms by (simp add: strip_def last_rev)
qed

lemma dropWhile_self: "xs = [] \<or> \<not> P (hd xs) \<Longrightarrow> dropWhile P xs = xs"
  by (cases xs) auto

lemma strip_idem: "strip (strip s) = strip s"
proof -
  define t where "t = strip s"
  have a: "dropWhile isspace t = t"
    using strip_head [of s] unfolding t_def by (intro dropWhile_self) blast
  have "rev t = [] \<or> \<not> isspace (hd (rev t))"
    using strip_last [of s] unfolding t_def by (cases "strip s = []") (simp_all add: hd_rev)
  then have b: "dropWhile isspace (rev t) = rev t" by (rule dropWhile_self)
  have "strip t = t" by (simp add: strip_def [of t] a b)
  then show ?thesis by (simp add: t_def)
qed

lemma strip_not_all_space: "strip s \<noteq> [] \<Longrightarrow> \<not> list_all isspace (strip s)"
  using strip_head [of s] by (cases "strip s") auto

lemma chunk_loop_invariant:
  assumes run: "chunk_loop text chunk_size chunk_overlap start chunks = Some result"
      and init: "\<forall>c \<in> set chunks. Q c"
      and new: "\<And>w. strip w \<noteq> [] \<Longrightarrow> Q (strip w)"
  shows "\<forall>c \<in> set result. Q c"
proof -
  have "(\<forall>c \<in> set chunks. Q c) \<longrightarrow> (\<forall>c \<in> set result. Q c)"
  proof (rule chunk_loop.raw_induct
      [where P = "\<lambda>text chunk_size chunk_overlap start chunks result.
                    (\<forall>c \<in> set chunks. Q c) \<longrightarrow> (\<forall>c \<in> set result. Q c)", OF _ run])
    fix loop :: "pystr \<Rightarrow> int \<Rightarrow> int \<Rightarrow> int \<Rightarrow> pystr list \<Rightarrow> pystr list option"
    fix doc :: pystr and chunk_size chunk_overlap start :: int and chunks result :: "pystr list"
    assume IH: "\<And>chunk_size chunk_overlap start chunks b y.
        loop chunk_size chunk_overlap start chunks b = Some y \<Longrightarrow>
        (\<forall>c \<in> set b. Q c) \<longrightarrow> (\<forall>c \<in> set y. Q c)"
    assume body: "(if start < int (length doc)
      then case chunk_window doc chunk_size start of
           (end, chunk) \<Rightarrow>
             loop doc chunk_size chunk_overlap
              (if end < int (length doc) then end - chunk_overlap else int (length doc))
              (if strip chunk \<noteq> [] then chunks @ [strip chunk] else chunks)
      else Some chunks) = Some result"
    show "(\<forall>c \<in> set chunks. Q c) \<longrightarrow> (\<forall>c \<in> set result. Q c)"
    proof (cases "start < int (length doc)")
      case False
      with body show ?thesis by simp
    next
      case True
      obtain e w where cw: "chunk_window doc chunk_size start = (e, w)"
        by (cases "chunk_window doc chunk_size start")
      let ?chunks' = "if strip w \<noteq> [] then chunks @ [strip w] else chunks"
      from body True cw have
        "loop doc chunk_size chunk_overlap
           (if e < int (length doc) then e - chunk_overlap else int (length doc)) ?chunks' = Some result"
        by simp
      then have "(\<forall>c \<in> set ?chunks'. Q c) \<longrightarrow> (\<forall>c \<in> set result. Q c)" by (rule IH)
      moreover have "(\<forall>c \<in> set chunks. Q c) \<longrightarrow> (\<forall>c \<in> set ?chunks'. Q c)" using new by auto
      ultimately show ?thesis by blast
    qed
  qed
  with init show ?thesis by blast
qed

lemmas chunk_eval = chunk_text_def py_def strip_def isspace_def chunk_loop.simps
  chunk_window_def py_slice_def slice_index_def rfind_def Let_def

section \<open>Properties of the chunker\<close>

text \<open>
  C9. Every chunk in the list returned by \<open>chunk_text\<close> is stripped of leading and
  trailing whitespace (it equals its own trim) and is non-empty; no whitespace-only chunk
  is returned, whatever the text, the chunk size and the overlap.
\<close>

theorem chunk_text_chunks_stripped:
  assumes "chunk_text text chunk_size chunk_overlap = Some chunks"
  shows "\<forall>c \<in> set chunks. strip c = c \<and> c \<noteq> [] \<and> \<not> list_all isspace c"
proof (cases "text = [] \<or> strip text = []")
  case True
  with assms show ?thesis by (auto simp: chunk_text_def)
next
  case False
  with assms have "chunk_loop text chunk_size chunk_overlap 0 [] = Some chunks"
    by (simp add: chunk_text_def)
  then show ?thesis
    by (rule chunk_loop_invariant) (simp_all add: strip_idem strip_not_all_space)
qed

theorem chunk_text_chunks_stripped_witness:
  "chunk_text (py ''Hello world. This is a test. More text here'') 20 3
     = Some [py ''Hello world.'', py ''ld. This is a test.'', py ''st. More text here''] \<and>
   list_all (\<lambda>c. strip c = c \<and> c \<noteq> [] \<and> \<not> list_all isspace c)
     [py ''Hello world.'', py ''ld. This is a test.'', py ''st. More text here'']"
proof -
  have run: "chunk_text (py ''Hello world. This is a test. More text here'') 20 3
     = Some [py ''Hello world.'', py ''ld. This is a test.'', py ''st. More text here'']"
    by (simp add: chunk_eval)
  from chunk_text_chunks_stripped [OF run] run show ?thesis
    unfolding list_all_iff by blast
qed

text \<open>
  C7 as stated fails on a text that is non-empty but blank: the guard at the top of
  \<open>chunk_text\<close> returns no chunk at all for it.
\<close>

theorem chunk_text_short_blank_counterexample:
  "py '' '' \<noteq> [] \<and> int (length (py '' '')) < 5 \<and> chunk_text (py '' '') 5 0 = Some []"
  by (simp add: chunk_eval)

lemma py_slice_all: "int (length xs) \<le> b \<Longrightarrow> py_slice xs 0 b = xs"
  by (cases xs) (auto simp: py_slice_def slice_index_def Let_def)

text \<open>
  C7 (amended). For every text that is not blank (not empty and not made of whitespace
  only) and whose length is strictly less than the chunk size, \<open>chunk_text\<close> returns
  exactly one chunk, the trimmed text, whatever the overlap.
\<close>

theorem chunk_text_short_text:
  assumes "strip text \<noteq> []" and "int (length text) < chunk_size"
  shows "chunk_text text chunk_size chunk_overlap = Some [strip text]"
proof -
  have ne: "text \<noteq> []" using assms(1) by (auto simp: strip_def)
  have w: "chunk_window text chunk_size 0 = (chunk_size, text)"
    using assms(2) by (simp add: chunk_window_def Let_def py_slice_all)
  have "chunk_loop text chunk_size chunk_overlap 0 []
      = chunk_loop text chunk_size chunk_overlap (int (length text)) [strip text]"
    using ne assms by (subst chunk_loop.simps) (simp add: w)
  also have "\<dots> = Some [strip text]"
    by (subst chunk_loop.simps) simp
  finally show ?thesis using ne assms(1) by (simp add: chunk_text_def)
qed

theorem chunk_text_short_text_witness:
  "strip (py '' ab. '') \<noteq> [] \<and> int (length (py '' ab. '')) < 10 \<and>
   chunk_text (py '' ab. '') 10 3 = Some [py ''ab.'']"
proof -
  have a: "strip (py '' ab. '') \<noteq> []" by (simp add: py_def strip_def isspace_def)
  have b: "int (length (py '' ab. '')) < 10" by (simp add: py_def)
  have c: "strip (py '' ab. '') = py ''ab.''" by (simp add: py_def strip_def isspace_def)
  from chunk_text_short_text [OF a b, of 3] a b c show ?thesis by simp
qed


text \<open>
  C1. The claim: for every text and every chunk size \<open>s\<close> and overlap \<open>o\<close> with
  \<open>o < s\<close>, \<open>chunk_text\<close> terminates and every returned chunk has length at most
  \<open>s\<close>. The code does not terminate on the 17-character text below with \<open>s = 10\<close> and
  \<open>o = 7\<close>: the window is cut after the full stop at index 6, so \<open>end = 7\<close> and the next
  \<open>start\<close> is \<open>7 - 7 = 0\<close> again.
\<close>

lemma window_stuck: "chunk_window (py ''aaaaaa.aaaaaaaaaa'') 10 0 = (7, py ''aaaaaa.'')"
  by (simp add: chunk_eval)

lemma chunk_loop_stuck:
  "chunk_loop text chunk_size chunk_overlap start chunks = Some result \<Longrightarrow>
   \<not> (text = py ''aaaaaa.aaaaaaaaaa'' \<and> chunk_size = 10 \<and> chunk_overlap = 7 \<and> start = 0)"
proof (rule chunk_loop.raw_induct
    [where P = "\<lambda>text chunk_size chunk_overlap start chunks result.
       \<not> (text = py ''aaaaaa.aaaaaaaaaa'' \<and> chunk_size = 10 \<and> chunk_overlap = 7 \<and> start = 0)"])
  fix loop :: "pystr \<Rightarrow> int \<Rightarrow> int \<Rightarrow> int \<Rightarrow> pystr list \<Rightarrow> pystr list option"
  fix doc :: pystr and chunk_size chunk_overlap start :: int and chunks result :: "pystr list"
  assume IH: "\<And>doc chunk_size chunk_overlap start chunks result.
      loop doc chunk_size chunk_overlap start chunks = Some result \<Longrightarrow>
      \<not> (doc = py ''aaaaaa.aaaaaaaaaa'' \<and> chunk_size = 10 \<and> chunk_overlap = 7 \<and> start = 0)"
  assume body: "(if start < int (length doc)
      then case chunk_window doc chunk_size start of
           (end, chunk) \<Rightarrow>
             loop doc chunk_size chunk_overlap
              (if end < int (length doc) then end - chunk_overlap else int (length doc))
              (if strip chunk \<noteq> [] then chunks @ [strip chunk] else chunks)
      else Some chunks) = Some result"
  show "\<not> (doc = py ''aaaaaa.aaaaaaaaaa'' \<and> chunk_size = 10 \<and> chunk_overlap = 7 \<and> start = 0)"
  proof
    assume stuck: "doc = py ''aaaaaa.aaaaaaaaaa'' \<and> chunk_size = 10 \<and> chunk_overlap = 7 \<and> start = 0"
    have len: "int (length (py ''aaaaaa.aaaaaaaaaa'')) = 17" by (simp add: py_def)
    from body stuck have
      "loop (py ''aaaaaa.aaaaaaaaaa'') 10 7 0
         (if strip (py ''aaaaaa.'') \<noteq> [] then chunks @ [strip (py ''aaaaaa.'')] else chunks) = Some result"
      by (simp add: window_stuck len)
    from IH [OF this] show False by simp
  qed
qed

text \<open>
  C1, at the failing input: \<open>chunk_text("aaaaaa.aaaaaaaaaa", 10, 7)\<close> never returns,
  although \<open>7 < 10\<close>.
\<close>

theorem chunk_text_never_returns:
  "chunk_text (py ''aaaaaa.aaaaaaaaaa'') 10 7 = None"
proof -
  have "chunk_loop (py ''aaaaaa.aaaaaaaaaa'') 10 7 0 [] = None"
    using chunk_loop_stuck [of "py ''aaaaaa.aaaaaaaaaa''" 10 7 0 "[]"] by (cases "chunk_loop (py ''aaaaaa.aaaaaaaaaa'') 10 7 0 []") auto
  moreover have "py ''aaaaaa.aaaaaaaaaa'' \<noteq> []" "strip (py ''aaaaaa.aaaaaaaaaa'') \<noteq> []"
    by (simp_all add: py_def strip_def isspace_def)
  ultimately show ?thesis by (simp add: chunk_text_def)
qed

subsection \<open>The break point of a window\<close>

lemma rfind_scan_absent: "c \<notin> set xs \<Longrightarrow> rfind_scan c xs i found = found"
  by (induction xs arbitrary: i) auto

lemma rfind_scan_present:
  "c \<in> set xs \<Longrightarrow>
   \<exists>k < length xs. rfind_scan c xs i found = i + int k \<and> xs ! k = c \<and>
      (\<forall>j. k < j \<and> j < length xs \<longrightarrow> xs ! j \<noteq> c)"
proof (induction xs arbitrary: i found)
  case Nil
  then show ?case by simp
next
  case (Cons x xs)
  show ?case
  proof (cases "c \<in> set xs")
    case True
    from Cons.IH [OF True, of "i + 1" "if x = c then i else found"]
    obtain k where k: "k < length xs"
      "rfind_scan c xs (i + 1) (if x = c then i else found) = i + 1 + int k"
      "xs ! k = c" "\<forall>j. k < j \<and> j < length xs \<longrightarrow> xs ! j \<noteq> c"
      by blast
    have "\<forall>j. Suc k < j \<and> j < length (x # xs) \<longrightarrow> (x # xs) ! j \<noteq> c"
    proof (intro allI impI)
      fix j assume "Suc k < j \<and> j < length (x # xs)"
      then obtain j' where "j = Suc j'" "k < j'" "j' < length xs" by (cases j) auto
      with k(4) show "(x # xs) ! j \<noteq> c" by simp
    qed
    with k(1-3) show ?thesis by (intro exI [of _ "Suc k"]) simp
  next
    case False
    with Cons.prems have xc: "x = c" by simp
    have "\<forall>j. 0 < j \<and> j < length (x # xs) \<longrightarrow> (x # xs) ! j \<noteq> c"
    proof (intro allI impI)
      fix j assume "0 < j \<and> j < length (x # xs)"
      then obtain j' where "j = Suc j'" "j' < length xs" by (cases j) auto
      with False show "(x # xs) ! j \<noteq> c" by (metis nth_Cons_Suc nth_mem)
    qed
    with xc False show ?thesis
      by (intro exI [of _ 0]) (simp add: rfind_scan_absent)
  qed
qed

lemma rfind_last_at: "last_at (\<lambda>x. x = c) w (rfind w c)"
proof (cases "c \<in> set w")
  case False
  then show ?thesis by (auto simp: last_at_def rfind_def rfind_scan_absent)
next
  case True
  from rfind_scan_present [OF True, of 0 "- 1"] show ?thesis
    by (auto simp: last_at_def rfind_def)
qed

lemma last_at_max:
  assumes "last_at (\<lambda>x. x = c) w p" and "last_at (\<lambda>x. x = d) w q"
  shows "last_at (\<lambda>x. x = c \<or> x = d) w (max p q)"
proof -
  have "p = - 1 \<or> 0 \<le> p" using assms(1) unfolding last_at_def by blast
  moreover have "q = - 1 \<or> 0 \<le> q" using assms(2) unfolding last_at_def by blast
  ultimately consider (none) "p = - 1" "q = - 1" | (left) "0 \<le> p" "q \<le> p" | (right) "0 \<le> q" "p \<le> q"
    by linarith
  then show ?thesis
  proof cases
    case none
    with assms show ?thesis unfolding last_at_def by auto
  next
    case left
    then have m: "max p q = p" by simp
    from left assms(1) have p: "nat p < length w" "w ! nat p = c"
      "\<forall>j. nat p < j \<and> j < length w \<longrightarrow> w ! j \<noteq> c"
      unfolding last_at_def by auto
    have "\<forall>j. nat p < j \<and> j < length w \<longrightarrow> w ! j \<noteq> d"
    proof (intro allI impI)
      fix j assume j: "nat p < j \<and> j < length w"
      show "w ! j \<noteq> d"
      proof (cases "q = - 1")
        case True
        with assms(2) j show ?thesis unfolding last_at_def by auto
      next
        case False
        with assms(2) have "0 \<le> q" "\<forall>j. nat q < j \<and> j < length w \<longrightarrow> w ! j \<noteq> d"
          unfolding last_at_def by auto
        moreover have "nat q < j" using j left \<open>0 \<le> q\<close> by linarith
        ultimately show ?thesis using j by blast
      qed
    qed
    with p left(1) show ?thesis unfolding last_at_def m by auto
  next
    case right
    then have m: "max p q = q" by simp
    from right assms(2) have q: "nat q < length w" "w ! nat q = d"
      "\<forall>j. nat q < j \<and> j < length w \<longrightarrow> w ! j \<noteq> d"
      unfolding last_at_def by auto
    have "\<forall>j. nat q < j \<and> j < length w \<longrightarrow> w ! j \<noteq> c"
    proof (intro allI impI)
      fix j assume j: "nat q < j \<and> j < length w"
      show "w ! j \<noteq> c"
      proof (cases "p = - 1")
        case True
        with assms(1) j show ?thesis unfolding last_at_def by auto
      next
        case False
        with assms(1) have "0 \<le> p" "\<forall>j. nat p < j \<and> j < length w \<longrightarrow> w ! j \<noteq> c"
          unfolding last_at_def by auto
        moreover have "nat p < j" using j right \<open>0 \<le> p\<close> by linarith
        ultimately show ?thesis using j by blast
      qed
    qed
    with q right(1) show ?thesis unfolding last_at_def m by auto
  qed
qed

lemma last_at_position:
  assumes "last_at is_break w b"
  shows "last_break_position w = b"
proof (cases "b = - 1")
  case True
  with assms have "\<not> (\<exists>i < length w. is_break (w ! i))" unfolding last_at_def by auto
  with True show ?thesis by (simp add: last_break_position_def)
next
  case False
  with assms have b: "0 \<le> b" "nat b < length w" "is_break (w ! nat b)"
    "\<forall>j. nat b < j \<and> j < length w \<longrightarrow> \<not> is_break (w ! j)"
    unfolding last_at_def by auto
  have "Max {i. i < length w \<and> is_break (w ! i)} = nat b"
  proof (rule Max_eqI)
    show "finite {i. i < length w \<and> is_break (w ! i)}" by simp
    show "nat b \<in> {i. i < length w \<and> is_break (w ! i)}" using b(2,3) by simp
    fix y assume "y \<in> {i. i < length w \<and> is_break (w ! i)}"
    then have y: "y < length w" "is_break (w ! y)" by simp_all
    show "y \<le> nat b"
    proof (rule ccontr)
      assume "\<not> y \<le> nat b"
      then have "nat b < y" by simp
      with b(4) y(1) have "\<not> is_break (w ! y)" by blast
      with y(2) show False by blast
    qed
  qed
  moreover have ex: "\<exists>i < length w. is_break (w ! i)" using b(2,3) by blast
  ultimately have "last_break_position w = int (nat b)"
    unfolding last_break_position_def by (simp only: if_True)
  then show ?thesis using b(1) by simp
qed

lemma last_break_rfind: "max (rfind w 46) (rfind w 10) = last_break_position w"
proof -
  have "last_at (\<lambda>x. x = 46 \<or> x = 10) w (max (rfind w 46) (rfind w 10))"
    by (intro last_at_max rfind_last_at)
  then have "last_at is_break w (max (rfind w 46) (rfind w 10))"
    by (simp add: last_at_def is_break_def)
  then show ?thesis by (simp add: last_at_position)
qed

lemma last_break_position_range: "- 1 \<le> last_break_position w \<and> last_break_position w < int (length w)"
proof (cases "\<exists>i < length w. is_break (w ! i)")
  case False
  then show ?thesis by (auto simp: last_break_position_def)
next
  case True
  then have "{i. i < length w \<and> is_break (w ! i)} \<noteq> {}" by blast
  then have "Max {i. i < length w \<and> is_break (w ! i)} \<in> {i. i < length w \<and> is_break (w ! i)}"
    by (intro Max_in) simp_all
  with True show ?thesis by (simp add: last_break_position_def)
qed

lemma half_test: "real_of_int b > real_of_int s * 0.5 \<longleftrightarrow> s < 2 * b"
  by auto

lemma py_slice_window:
  assumes "0 \<le> a" and "a \<le> b" and "b \<le> int (length xs)"
  shows "py_slice xs a b = take (nat (b - a)) (drop (nat a) xs)"
    and "length (py_slice xs a b) = nat (b - a)"
proof -
  have lo: "slice_index a (length xs) = nat a"
    using assms by (simp add: slice_index_def min_def)
  have hi: "slice_index b (length xs) = nat b"
    using assms by (simp add: slice_index_def min_def)
  have d: "nat b - nat a = nat (b - a)" using assms by linarith
  show "py_slice xs a b = take (nat (b - a)) (drop (nat a) xs)"
    using assms by (cases "a < b") (simp_all add: py_slice_def Let_def lo hi d)
  then show "length (py_slice xs a b) = nat (b - a)"
    using assms by simp
qed

text \<open>
  C6. For every window that does not reach the end of the text, the loop body finds the
  position \<open>b\<close> of the last full stop or newline within the raw window
  \<open>[start, start + max_size)\<close>, and exactly when \<open>b > max_size * 0.5\<close> it ends the chunk
  one character past that break; otherwise the window keeps its full length
  \<open>max_size\<close>. The first conjunct is the rule on the slice the code takes; the second
  says that for a start and a size that are not negative this slice is the raw window, of
  length \<open>max_size\<close>, and the cut chunk is its first \<open>b + 1\<close> characters.
\<close>

theorem chunk_window_break_rule:
  assumes "start + chunk_size < int (length text)"
  shows "let w = py_slice text start (start + chunk_size);
             b = last_break_position w
         in chunk_window text chunk_size start =
              (if real_of_int b > real_of_int chunk_size * 0.5
               then (start + b + 1, py_slice text start (start + b + 1))
               else (start + chunk_size, w)) \<and>
            (0 \<le> start \<and> 0 \<le> chunk_size \<longrightarrow>
               w = take (nat chunk_size) (drop (nat start) text) \<and>
               length w = nat chunk_size \<and>
               (real_of_int b > real_of_int chunk_size * 0.5 \<longrightarrow>
                  py_slice text start (start + b + 1) = take (nat (b + 1)) w))"
proof -
  define w where "w = py_slice text start (start + chunk_size)"
  define b where "b = last_break_position w"
  have code: "chunk_window text chunk_size start =
              (if real_of_int b > real_of_int chunk_size * 0.5
               then (start + b + 1, py_slice text start (start + b + 1))
               else (start + chunk_size, w))"
    using assms by (simp add: chunk_window_def Let_def last_break_rfind w_def b_def)
  have shape: "w = take (nat chunk_size) (drop (nat start) text) \<and>
               length w = nat chunk_size \<and>
               (real_of_int b > real_of_int chunk_size * 0.5 \<longrightarrow>
                  py_slice text start (start + b + 1) = take (nat (b + 1)) w)"
    if wf: "0 \<le> start" "0 \<le> chunk_size"
  proof -
    have w1: "w = take (nat chunk_size) (drop (nat start) text)"
      and w2: "length w = nat chunk_size"
      using py_slice_window [of start "start + chunk_size" "text"] wf assms by (simp_all add: w_def)
    have "py_slice text start (start + b + 1) = take (nat (b + 1)) w"
      if "real_of_int b > real_of_int chunk_size * 0.5"
    proof -
      have b0: "0 \<le> b" using that wf by (simp add: half_test)
      have b1: "b < chunk_size" using last_break_position_range [of w] w2 wf by (simp add: b_def)
      have "py_slice text start (start + b + 1) = take (nat (b + 1)) (drop (nat start) text)"
        using py_slice_window(1) [of start "start + b + 1" "text"] wf assms b0 b1 by simp
      also have "\<dots> = take (nat (b + 1)) w"
        using b0 b1 by (simp add: w1 min_def)
      finally show ?thesis .
    qed
    with w1 w2 show ?thesis by blast
  qed
  from code shape show ?thesis unfolding Let_def w_def [symmetric] b_def [symmetric] by blast
qed

theorem chunk_window_break_rule_witness:
  "0 + 20 < int (length (py ''Hello world. This is a test. More text here'')) \<and>
   (0::int) \<le> 0 \<and> (0::int) \<le> 20 \<and>
   py_slice (py ''Hello world. This is a test. More text here'') 0 20 = py ''Hello world. This is'' \<and>
   last_break_position (py ''Hello world. This is'') = 11 \<and>
   real_of_int 11 > real_of_int 20 * 0.5 \<and>
   chunk_window (py ''Hello world. This is a test. More text here'') 20 0 = (12, py ''Hello world.'') \<and>
   py ''Hello world.'' = take (nat (11 + 1)) (py ''Hello world. This is'')"
proof -
  have len: "0 + 20 < int (length (py ''Hello world. This is a test. More text here''))"
    by (simp add: py_def)
  have w: "py_slice (py ''Hello world. This is a test. More text here'') 0 20 = py ''Hello world. This is''"
    by (simp add: py_def py_slice_def slice_index_def)
  have run: "chunk_window (py ''Hello world. This is a test. More text here'') 20 0 = (12, py ''Hello world.'')"
    by (simp add: chunk_eval)
  have cut: "py ''Hello world.'' = take (nat (11 + 1)) (py ''Hello world. This is'')"
    by (simp add: py_def)
  from chunk_window_break_rule [OF len]
  have "last_break_position (py ''Hello world. This is'') = 11"
    by (auto simp add: Let_def w run split: if_splits)
  with len w run cut show ?thesis by simp
qed

subsection \<open>Termination for a bounded overlap\<close>

lemma chunk_window_eq:
  assumes "start + chunk_size < int (length text)"
  shows "chunk_window text chunk_size start =
          (if chunk_size < 2 * last_break_position (py_slice text start (start + chunk_size))
           then (start + last_break_position (py_slice text start (start + chunk_size)) + 1,
                 py_slice text start
                   (start + last_break_position (py_slice text start (start + chunk_size)) + 1))
           else (start + chunk_size, py_slice text start (start + chunk_size)))"
  using assms by (simp add: chunk_window_def Let_def last_break_rfind)

lemma chunk_window_last:
  assumes "\<not> start + chunk_size < int (length text)"
  shows "chunk_window text chunk_size start = (start + chunk_size, py_slice text start (start + chunk_size))"
  using assms by (simp add: chunk_window_def Let_def)

lemma py_slice_length:
  assumes "0 \<le> a" and "a \<le> b"
  shows "int (length (py_slice xs a b)) \<le> b - a"
  using assms by (auto simp: py_slice_def slice_index_def Let_def min_def)

lemma chunk_window_progress:
  assumes o: "chunk_overlap < chunk_size" "2 * chunk_overlap \<le> chunk_size + 1"
      and s: "0 \<le> start" "0 \<le> chunk_size"
      and w: "chunk_window text chunk_size start = (e, w)"
  shows "start + chunk_overlap < e \<and> int (length w) \<le> chunk_size"
proof (cases "start + chunk_size < int (length text)")
  case False
  from w have e: "e = start + chunk_size" and ww: "w = py_slice text start (start + chunk_size)"
    by (auto simp: chunk_window_last [OF False])
  have "int (length w) \<le> chunk_size"
    using py_slice_length [of start "start + chunk_size" "text"] s by (simp add: ww)
  with e o show ?thesis by simp
next
  case True
  define b where "b = last_break_position (py_slice text start (start + chunk_size))"
  have len: "int (length (py_slice text start (start + chunk_size))) \<le> chunk_size"
    using py_slice_length [of start "start + chunk_size" "text"] s by simp
  have b1: "b < chunk_size" and b2: "- 1 \<le> b"
    using last_break_position_range [of "py_slice text start (start + chunk_size)"] len
    by (simp_all add: b_def)
  show ?thesis
  proof (cases "chunk_size < 2 * b")
    case cut: True
    from w have e: "e = start + b + 1" and ww: "w = py_slice text start (start + b + 1)"
      using cut by (auto simp: chunk_window_eq [OF True] b_def [symmetric])
    have "int (length w) \<le> b + 1"
      using py_slice_length [of start "start + b + 1" "text"] s b2 by (simp add: ww)
    with e o cut b1 show ?thesis by simp
  next
    case False
    from w have e: "e = start + chunk_size" and ww: "w = py_slice text start (start + chunk_size)"
      using False by (auto simp: chunk_window_eq [OF True] b_def [symmetric])
    with len o show ?thesis by simp
  qed
qed

lemma chunk_loop_terminates:
  assumes o: "chunk_overlap < chunk_size" "2 * chunk_overlap \<le> chunk_size + 1"
      and s: "0 \<le> chunk_size"
  shows "0 \<le> start \<Longrightarrow> \<forall>c \<in> set chunks. int (length c) \<le> chunk_size \<Longrightarrow>
         \<exists>result. chunk_loop text chunk_size chunk_overlap start chunks = Some result \<and>
            (\<forall>c \<in> set result. int (length c) \<le> chunk_size)"
proof (induction "nat (int (length text) - start)" arbitrary: start chunks rule: less_induct)
  case less
  show ?case
  proof (cases "start < int (length text)")
    case False
    then show ?thesis using less.prems(2) by (subst chunk_loop.simps) simp
  next
    case True
    obtain e w where cw: "chunk_window text chunk_size start = (e, w)"
      by (cases "chunk_window text chunk_size start")
    from chunk_window_progress [OF o less.prems(1) s cw]
    have adv: "start + chunk_overlap < e" and wl: "int (length w) \<le> chunk_size" by simp_all
    let ?start' = "if e < int (length text) then e - chunk_overlap else int (length text)"
    let ?chunks' = "if strip w \<noteq> [] then chunks @ [strip w] else chunks"
    have m: "nat (int (length text) - ?start') < nat (int (length text) - start)"
      using True adv by auto
    have p: "0 \<le> ?start'" using adv less.prems(1) by auto
    have "int (length (strip w)) \<le> chunk_size"
      using strip_length [of w] wl by linarith
    then have c: "\<forall>c \<in> set ?chunks'. int (length c) \<le> chunk_size"
      using less.prems(2) by auto
    from less.hyps [OF m p c]
    obtain result where "chunk_loop text chunk_size chunk_overlap ?start' ?chunks' = Some result"
      "\<forall>c \<in> set result. int (length c) \<le> chunk_size" by blast
    then show ?thesis using True cw by (subst chunk_loop.simps) simp
  qed
qed

text \<open>
  What the loop does guarantee: with a chunk size that is not negative and an overlap below
  it that is at most \<open>(chunk_size + 1) / 2\<close>, every window moves \<open>start\<close> forward, so
  \<open>chunk_text\<close> returns, and no chunk is longer than the chunk size.
\<close>

lemma chunk_text_terminates_small_overlap:
  assumes "chunk_overlap < chunk_size" and "2 * chunk_overlap \<le> chunk_size + 1"
      and "0 \<le> chunk_size"
  shows "\<exists>chunks. chunk_text text chunk_size chunk_overlap = Some chunks \<and>
           (\<forall>c \<in> set chunks. int (length c) \<le> chunk_size)"
proof (cases "text = [] \<or> strip text = []")
  case True
  then show ?thesis by (auto simp: chunk_text_def)
next
  case False
  from chunk_loop_terminates [OF assms, of 0 "[]" "text"] False
  show ?thesis by (simp add: chunk_text_def)
qed

section \<open>Properties of retrieval and generation\<close>

lemmas io_defs = io_return_def io_raise_def io_bind_def try_except_def external_def

lemma query_documents_try_calls:
  "\<exists>calls. snd (query_documents_try b subject_id query n_results trace) = trace @ calls \<and>
      list_all retrieval_call calls"
  by (auto simp: query_documents_try_def get_or_create_collection_def io_defs Let_def
      retrieval_call_def split: sum.splits prod.splits)

lemma query_documents_except_snd:
  "snd (query_documents_except b e t)
     = t @ [Print (py ''Error querying documents: '' @ error_text e)]"
  by (cases "stdout_print b (py ''Error querying documents: '' @ error_text e) t")
     (simp_all add: query_documents_except_def io_bind_def io_return_def external_def Let_def)

lemma query_documents_calls:
  "\<exists>calls. snd (query_documents b subject_id query n_results trace) = trace @ calls \<and>
      list_all retrieval_call calls"
proof -
  obtain x t where xt: "query_documents_try b subject_id query n_results trace = (x, t)"
    by (cases "query_documents_try b subject_id query n_results trace")
  have "snd (query_documents_try b subject_id query n_results trace) = t"
    by (simp only: xt snd_conv)
  with query_documents_try_calls [of b subject_id query n_results trace]
  obtain calls where c: "t = trace @ calls" "list_all retrieval_call calls"
    by metis
  have q: "query_documents b subject_id query n_results trace
      = (case x of
           Inl e \<Rightarrow> if is_exception e then query_documents_except b e t else (Inl e, t)
         | Inr v \<Rightarrow> (Inr v, t))"
    unfolding query_documents_def try_except_def xt by (simp split: sum.splits)
  show ?thesis
  proof (cases "\<exists>e. x = Inl e \<and> is_exception e")
    case True
    then obtain e where e: "x = Inl e" "is_exception e" by blast
    have "snd (query_documents b subject_id query n_results trace)
        = trace @ (calls @ [Print (py ''Error querying documents: '' @ error_text e)])"
      by (simp add: q e query_documents_except_snd c(1))
    moreover have "list_all retrieval_call
        (calls @ [Print (py ''Error querying documents: '' @ error_text e)])"
      using c(2) by (simp add: retrieval_call_def)
    ultimately show ?thesis by blast
  next
    case False
    then have "snd (query_documents b subject_id query n_results trace) = t"
      by (cases x) (auto simp: q)
    with c show ?thesis by blast
  qed
qed

lemma query_documents_propagates:
  assumes "fst (query_documents_try b subject_id query n_results trace) = Inl e"
      and "\<not> is_exception e"
  shows "query_documents b subject_id query n_results trace
           = (Inl e, snd (query_documents_try b subject_id query n_results trace))"
  using assms
  by (cases "query_documents_try b subject_id query n_results trace")
     (simp add: query_documents_def try_except_def)

text \<open>
  C8. For every question and non-empty context, when the decoded output of the generation
  model is empty or has fewer than 3 characters after trimming, \<open>_generate_answer\<close>
  returns the sentinel string instead of it; otherwise it returns the model output
  unchanged. The model is called once, with the prompt built from question and context.
\<close>

theorem generate_answer_normalises:
  assumes "context \<noteq> []"
      and "llm_generate b (build_prompt question context) trace = Inr out"
  shows "generate_answer b question context trace =
           (Inr (if out = [] \<or> length (strip out) < 3 then sentinel else out),
            trace @ [Generate (build_prompt question context)])"
  using assms by (simp add: generate_answer_def io_defs Let_def)

text \<open>
  C4 as stated fails: \<open>except Exception\<close> does not catch an exception that is not an
  instance of \<open>Exception\<close>, so a \<open>KeyboardInterrupt\<close> raised inside \<open>collection.count()\<close>
  leaves \<open>query_documents\<close>; and an exception that the handler's own \<open>print\<close> raises
  leaves it too.
\<close>

theorem query_documents_raises_counterexample:
  "fst (query_documents
          (fixed_backend (Inl (BaseException (py ''KeyboardInterrupt''))) example_results (Inr []))
          (py ''s1'') (py ''Why?'') 5 [])
     = Inl (BaseException (py ''KeyboardInterrupt'')) \<and>
   fst (query_documents
          ((fixed_backend (Inl (Exception (py ''store unavailable''))) example_results (Inr []))
             \<lparr>stdout_print := (\<lambda>message trace. Inl (Exception (py ''BrokenPipeError'')))\<rparr>)
          (py ''s1'') (py ''Why?'') 5 [])
     = Inl (Exception (py ''BrokenPipeError''))"
  by (simp add: fixed_backend_def io_defs query_documents_def query_documents_try_def
      query_documents_except_def get_or_create_collection_def Let_def is_exception_def)

text \<open>
  C4 (amended). If the subject's collection is empty, \<open>query_documents\<close> returns the
  empty result, after the two calls that find the collection and count it. If every
  exception the \<open>try\<close> block raises is an instance of \<open>Exception\<close> and printing the error
  message succeeds, \<open>query_documents\<close> does not raise: it returns a result, and a failure
  of the \<open>try\<close> block, and so of any of the five calls it makes to the vector store and the
  embedding model, ends in the empty result.
\<close>

theorem query_documents_degrades:
  "(chroma_get_or_create b (py ''subject_'' @ subject_id) trace = Inr () \<and>
    collection_count b (py ''subject_'' @ subject_id) (trace @ [GetOrCreateCollection (py ''subject_'' @ subject_id)]) = Inr 0
    \<longrightarrow> query_documents b subject_id query n_results trace
          = (Inr empty_retrieval, trace @ [GetOrCreateCollection (py ''subject_'' @ subject_id), Count (py ''subject_'' @ subject_id)])) \<and>
   ((\<forall>e. fst (query_documents_try b subject_id query n_results trace) = Inl e
          \<longrightarrow> is_exception e) \<and>
    (\<forall>message t. stdout_print b message t = Inr ())
    \<longrightarrow> (\<exists>r trace'.
          query_documents b subject_id query n_results trace = (Inr r, trace') \<and>
          ((\<exists>e. fst (query_documents_try b subject_id query n_results trace) = Inl e)
           \<longrightarrow> r = empty_retrieval) \<and>
          ((\<exists>e. chroma_get_or_create b (py ''subject_'' @ subject_id) trace = Inl e)
           \<longrightarrow> r = empty_retrieval) \<and>
          ((\<exists>e. collection_count b (py ''subject_'' @ subject_id) (trace @ [GetOrCreateCollection (py ''subject_'' @ subject_id)]) = Inl e)
           \<longrightarrow> r = empty_retrieval) \<and>
          ((\<exists>e. model_encode b [query] (trace @ [GetOrCreateCollection (py ''subject_'' @ subject_id), Count (py ''subject_'' @ subject_id)]) = Inl e)
           \<longrightarrow> r = empty_retrieval) \<and>
          ((\<exists>e. collection_count b (py ''subject_'' @ subject_id)
                   (trace @ [GetOrCreateCollection (py ''subject_'' @ subject_id), Count (py ''subject_'' @ subject_id), Encode [query]]) = Inl e)
           \<longrightarrow> r = empty_retrieval) \<and>
          ((\<exists>e embedding count.
              model_encode b [query] (trace @ [GetOrCreateCollection (py ''subject_'' @ subject_id), Count (py ''subject_'' @ subject_id)])
                = Inr embedding \<and>
              collection_count b (py ''subject_'' @ subject_id)
                (trace @ [GetOrCreateCollection (py ''subject_'' @ subject_id), Count (py ''subject_'' @ subject_id), Encode [query]]) = Inr count \<and>
              collection_query b (py ''subject_'' @ subject_id) embedding (min n_results count)
                (trace @ [GetOrCreateCollection (py ''subject_'' @ subject_id), Count (py ''subject_'' @ subject_id), Encode [query], Count (py ''subject_'' @ subject_id)]) = Inl e)
           \<longrightarrow> r = empty_retrieval)))"
  by (auto simp: query_documents_def query_documents_try_def query_documents_except_def
      get_or_create_collection_def io_defs Let_def split: sum.splits prod.splits)

lemmas backend_eval = fixed_backend_def io_defs query_documents_def query_documents_try_def
  query_documents_except_def get_or_create_collection_def is_exception_def Let_def

theorem generate_answer_normalises_witness:
  "py ''Context:'' \<noteq> [] \<and>
   generate_answer (fixed_backend (Inr 1) \<lparr>qr_documents = None, qr_metadatas = None, qr_distances = None\<rparr>
       (Inr (py '' a ''))) (py ''Why?'') (py ''Context:'') []
     = (Inr sentinel, [Generate (build_prompt (py ''Why?'') (py ''Context:''))]) \<and>
   generate_answer (fixed_backend (Inr 1) \<lparr>qr_documents = None, qr_metadatas = None, qr_distances = None\<rparr>
       (Inr (py ''Paris''))) (py ''Why?'') (py ''Context:'') []
     = (Inr (py ''Paris''), [Generate (build_prompt (py ''Why?'') (py ''Context:''))])"
proof -
  have c: "py ''Context:'' \<noteq> []" by (simp add: py_def)
  have a: "llm_generate (fixed_backend (Inr 1) \<lparr>qr_documents = None, qr_metadatas = None, qr_distances = None\<rparr>
       (Inr (py '' a ''))) (build_prompt (py ''Why?'') (py ''Context:'')) [] = Inr (py '' a '')"
    by (simp add: fixed_backend_def)
  have b: "llm_generate (fixed_backend (Inr 1) \<lparr>qr_documents = None, qr_metadatas = None, qr_distances = None\<rparr>
       (Inr (py ''Paris''))) (build_prompt (py ''Why?'') (py ''Context:'')) [] = Inr (py ''Paris'')"
    by (simp add: fixed_backend_def)
  have s1: "py '' a '' \<noteq> [] \<and> length (strip (py '' a '')) < 3"
    by (simp add: py_def strip_def isspace_def)
  have s2: "py ''Paris'' \<noteq> [] \<and> \<not> length (strip (py ''Paris'')) < 3"
    by (simp add: py_def strip_def isspace_def)
  from generate_answer_normalises [OF c a] generate_answer_normalises [OF c b] c s1 s2
  show ?thesis by simp
qed

theorem query_documents_degrades_witness:
  "query_documents (fixed_backend (Inr 0) \<lparr>qr_documents = None, qr_metadatas = None, qr_distances = None\<rparr>
       (Inr [])) (py ''s1'') (py ''Why?'') 5 []
     = (Inr empty_retrieval,
        [GetOrCreateCollection (py ''subject_'' @ py ''s1''), Count (py ''subject_'' @ py ''s1'')]) \<and>
   query_documents (fixed_backend (Inl (Exception (py ''store unavailable'')))
       \<lparr>qr_documents = None, qr_metadatas = None, qr_distances = None\<rparr>
       (Inr [])) (py ''s1'') (py ''Why?'') 5 []
     = (Inr empty_retrieval,
        [GetOrCreateCollection (py ''subject_'' @ py ''s1''), Count (py ''subject_'' @ py ''s1''),
         Print (py ''Error querying documents: '' @ py ''store unavailable'')])"
proof -
  let ?b0 = "fixed_backend (Inr 0) \<lparr>qr_documents = None, qr_metadatas = None, qr_distances = None\<rparr> (Inr [])"
  let ?b1 = "fixed_backend (Inl (Exception (py ''store unavailable'')))
       \<lparr>qr_documents = None, qr_metadatas = None, qr_distances = None\<rparr> (Inr [])"
  have h0: "chroma_get_or_create ?b0 (py ''subject_'' @ py ''s1'') [] = Inr () \<and>
      collection_count ?b0 (py ''subject_'' @ py ''s1'')
        ([] @ [GetOrCreateCollection (py ''subject_'' @ py ''s1'')]) = Inr 0"
    by (simp add: fixed_backend_def)
  have t1: "query_documents_try ?b1 (py ''s1'') (py ''Why?'') 5 []
      = (Inl (Exception (py ''store unavailable'')),
         [GetOrCreateCollection (py ''subject_'' @ py ''s1''), Count (py ''subject_'' @ py ''s1'')])"
    by (simp add: fixed_backend_def io_defs query_documents_try_def get_or_create_collection_def Let_def)
  have h1: "(\<forall>e. fst (query_documents_try ?b1 (py ''s1'') (py ''Why?'') 5 []) = Inl e
              \<longrightarrow> is_exception e) \<and>
            (\<forall>message t. stdout_print ?b1 message t = Inr ())"
    by (simp add: t1 is_exception_def) (simp add: fixed_backend_def)
  from query_documents_degrades [of ?b0 "py ''s1''" "[]" "py ''Why?''" 5] h0
  have r0: "query_documents ?b0 (py ''s1'') (py ''Why?'') 5 []
     = (Inr empty_retrieval,
        [GetOrCreateCollection (py ''subject_'' @ py ''s1''), Count (py ''subject_'' @ py ''s1'')])"
    by simp
  from query_documents_degrades [of ?b1 "py ''s1''" "[]" "py ''Why?''" 5] h1
  obtain r trace' where
    q: "query_documents ?b1 (py ''s1'') (py ''Why?'') 5 [] = (Inr r, trace')" and
    e: "(\<exists>e. fst (query_documents_try ?b1 (py ''s1'') (py ''Why?'') 5 []) = Inl e)
          \<longrightarrow> r = empty_retrieval"
    by blast
  from e have "r = empty_retrieval" by (simp add: t1)
  moreover have "snd (query_documents ?b1 (py ''s1'') (py ''Why?'') 5 [])
     = [GetOrCreateCollection (py ''subject_'' @ py ''s1''), Count (py ''subject_'' @ py ''s1''),
        Print (py ''Error querying documents: '' @ py ''store unavailable'')]"
    by (simp add: query_documents_def try_except_def t1 is_exception_def
        query_documents_except_snd error_text_def)
  ultimately have r1: "query_documents ?b1 (py ''s1'') (py ''Why?'') 5 []
     = (Inr empty_retrieval,
        [GetOrCreateCollection (py ''subject_'' @ py ''s1''), Count (py ''subject_'' @ py ''s1''),
         Print (py ''Error querying documents: '' @ py ''store unavailable'')])"
    using q by simp
  from r0 r1 show ?thesis by simp
qed

section \<open>Properties of the answer pipeline\<close>

lemma first_seen_set: "set (first_seen xs) = set xs"
  by (induction xs) auto

lemma first_seen_distinct: "distinct (first_seen xs)"
  by (induction xs) (auto simp: first_seen_set)

lemma first_seen_subseq: "subseq (first_seen xs) xs"
proof (induction xs)
  case Nil
  show ?case by simp
next
  case (Cons x xs)
  have "subseq (filter (\<lambda>y. y \<noteq> x) (first_seen xs)) (first_seen xs)" by simp
  from this Cons.IH have "subseq (filter (\<lambda>y. y \<noteq> x) (first_seen xs)) xs"
    by (rule subseq_order.trans)
  then show ?case by simp
qed

lemma filenames_simps:
  "filenames [] = []"
  "filenames (None # ms) = filenames ms"
  "entry (py ''filename'') = None \<Longrightarrow> filenames (Some entry # ms) = filenames ms"
  "entry (py ''filename'') = Some f \<Longrightarrow> filenames (Some entry # ms) = f # filenames ms"
  by (simp_all add: filenames_def)

lemma sources_loop_first_seen:
  "seen_files = set sources \<Longrightarrow>
   sources_loop ms sources seen_files
     = sources @ filter (\<lambda>f. f \<notin> seen_files) (first_seen (filenames ms))"
proof (induction ms arbitrary: sources seen_files)
  case Nil
  show ?case by (simp add: filenames_simps)
next
  case (Cons m ms)
  show ?case
  proof (cases m)
    case None
    with Cons show ?thesis by (simp add: filenames_simps)
  next
    case (Some entry)
    show ?thesis
    proof (cases "entry (py ''filename'')")
      case None
      with Some Cons show ?thesis by (simp add: filenames_simps)
    next
      case (Some f)
      note f = this
      show ?thesis
      proof (cases "f \<in> seen_files")
        case True
        have "filter (\<lambda>g. g \<notin> seen_files) (filter (\<lambda>y. y \<noteq> f) (first_seen (filenames ms)))
            = filter (\<lambda>g. g \<notin> seen_files) (first_seen (filenames ms))"
          using True by (auto intro: filter_cong)
        with True f \<open>m = Some entry\<close> Cons show ?thesis by (simp add: filenames_simps)
      next
        case False
        have "insert f seen_files = set (sources @ [f])" using Cons.prems by simp
        from Cons.IH [OF this]
        have "sources_loop ms (sources @ [f]) (insert f seen_files)
            = (sources @ [f]) @ filter (\<lambda>g. g \<notin> insert f seen_files) (first_seen (filenames ms))" .
        moreover have "filter (\<lambda>g. g \<notin> seen_files) (filter (\<lambda>y. y \<noteq> f) (first_seen (filenames ms)))
            = filter (\<lambda>g. g \<notin> insert f seen_files) (first_seen (filenames ms))"
          by (auto intro: filter_cong)
        ultimately show ?thesis using False f \<open>m = Some entry\<close> by (simp add: filenames_simps)
      qed
    qed
  qed
qed

lemma sources_loop_spec: "sources_loop ms [] {} = first_seen (filenames ms)"
  by (simp add: sources_loop_first_seen)

text \<open>
  C5. When retrieval returned chunks and generation returned an answer, the sources of
  \<open>answer_question\<close> are the filenames of the retrieved metadata taken in retrieved
  order, each kept the first time it is seen and never a second time: there are no
  duplicates, the order is the first-seen order, and entries that are missing or have no
  filename key are skipped without an error.
\<close>

theorem answer_question_sources:
  assumes "query_documents b subject_id question n_results trace = (Inr results, trace1)"
      and "res_documents results \<noteq> []"
      and "generate_answer b question (create_context (res_documents results)) trace1
             = (Inr answer, trace2)"
  shows "\<exists>sources.
           answer_question b subject_id question n_results trace
             = (Inr \<lparr>ans_answer = answer, ans_sources = sources\<rparr>, trace2) \<and>
           sources = first_seen (filenames (res_metadatas results)) \<and>
           distinct sources \<and>
           set sources = set (filenames (res_metadatas results)) \<and>
           subseq sources (filenames (res_metadatas results))"
  using assms
  by (simp add: answer_question_def io_defs Let_def sources_loop_spec
      first_seen_distinct first_seen_set first_seen_subseq)

text \<open>
  C3. For every subject and question, when retrieval returns zero chunks
  \<open>answer_question\<close> returns exactly the sentinel answer with an empty list of sources,
  and the generation model is not invoked: the calls made are those of retrieval, and none
  of them is a \<open>Generate\<close> call.
\<close>

theorem answer_question_no_chunks:
  assumes "query_documents b subject_id question n_results trace = (Inr results, trace')"
      and "res_documents results = []"
  shows "answer_question b subject_id question n_results trace
           = (Inr \<lparr>ans_answer = sentinel, ans_sources = []\<rparr>, trace') \<and>
         (\<exists>calls. trace' = trace @ calls \<and> (\<forall>prompt. Generate prompt \<notin> set calls))"
proof -
  have "snd (query_documents b subject_id question n_results trace) = trace'"
    by (simp only: assms(1) snd_conv)
  with query_documents_calls [of b subject_id question n_results trace]
  obtain calls where c: "trace' = trace @ calls" "list_all retrieval_call calls"
    by metis
  have "\<forall>prompt. Generate prompt \<notin> set calls"
  proof (intro allI notI)
    fix prompt assume "Generate prompt \<in> set calls"
    with c(2) have "retrieval_call (Generate prompt)" by (simp add: list_all_iff)
    then show False by (simp add: retrieval_call_def)
  qed
  with c(1) assms show ?thesis
    by (auto simp: answer_question_def io_defs Let_def)
qed

lemma create_context_nonempty: "documents \<noteq> [] \<Longrightarrow> create_context documents \<noteq> []"
proof -
  have grow: "acc \<noteq> [] \<Longrightarrow>
      foldl (\<lambda>context (i, doc). context @ str_nat i @ py ''. '' @ doc @ [10, 10]) acc xs \<noteq> []"
    for acc :: pystr and xs :: "(nat \<times> pystr) list"
    by (induction xs arbitrary: acc) (auto split: prod.splits)
  assume "documents \<noteq> []"
  then show ?thesis by (simp add: create_context_def grow)
qed

text \<open>
  C10. The answer field of what \<open>answer_question\<close> returns is never empty or
  near-empty: it is the sentinel string, or a string whose trimmed length is at least 3.
\<close>

theorem answer_question_answer_not_degenerate:
  assumes "answer_question b subject_id question n_results trace = (Inr result, trace')"
  shows "ans_answer result = sentinel \<or> 3 \<le> length (strip (ans_answer result))"
  using assms create_context_nonempty
  by (auto simp: answer_question_def generate_answer_def io_defs Let_def
      split: sum.splits prod.splits if_splits)

text \<open>
  C2. For a subject that has zero documents the answer pipeline short-circuits before
  retrieval: the route checks the subject's documents first and answers with the sentinel
  and no sources, and the trace of external calls is unchanged, so the vector index, the
  embedding model and the generation model are not called.
\<close>

theorem ask_question_short_circuits:
  assumes "subjects (req_subject_id request) = Some subject"
      and "subject_documents subject = None \<or> subject_documents subject = Some []"
  shows "ask_question b subjects request trace
           = (Inr \<lparr>resp_subject_id = req_subject_id request,
                   resp_question = req_question request,
                   resp_answer = sentinel,
                   resp_sources = []\<rparr>, trace)"
  using assms by (auto simp: ask_question_def io_return_def)

lemma example_query:
  "query_documents (fixed_backend (Inr 6) example_results out) (py ''s1'') (py ''Why?'') 5 []
     = (Inr example_retrieval,
        [GetOrCreateCollection (py ''subject_'' @ py ''s1''), Count (py ''subject_'' @ py ''s1''),
         Encode [py ''Why?''], Count (py ''subject_'' @ py ''s1''),
         Query (py ''subject_'' @ py ''s1'') [[0]] 5])"
  by (simp add: backend_eval first_or_empty_def example_results_def example_retrieval_def)

lemma example_filenames:
  "first_seen (filenames (res_metadatas example_retrieval)) = [py ''A.pdf'', py ''B.pdf'']"
  by (simp add: example_retrieval_def filenames_def meta_of_def py_def)

lemma example_generate:
  "context \<noteq> [] \<Longrightarrow>
   generate_answer (fixed_backend n res (Inr (py ''Paris.''))) question context trace
     = (Inr (py ''Paris.''), trace @ [Generate (build_prompt question context)])"
  by (simp add: generate_answer_def io_defs Let_def fixed_backend_def)
     (simp add: py_def strip_def isspace_def)

text \<open>
  The example of the specification: three chunks of \<open>A.pdf\<close> and one of \<open>B.pdf\<close> give the
  sources \<open>["A.pdf", "B.pdf"]\<close>.
\<close>

theorem answer_question_sources_witness:
  "fst (query_documents (fixed_backend (Inr 6) example_results (Inr (py ''Paris.'')))
          (py ''s1'') (py ''Why?'') 5 []) = Inr example_retrieval \<and>
   res_documents example_retrieval \<noteq> [] \<and>
   fst (answer_question (fixed_backend (Inr 6) example_results (Inr (py ''Paris.'')))
          (py ''s1'') (py ''Why?'') 5 [])
     = Inr \<lparr>ans_answer = py ''Paris.'', ans_sources = [py ''A.pdf'', py ''B.pdf'']\<rparr>"
proof -
  let ?b = "fixed_backend (Inr 6) example_results (Inr (py ''Paris.''))"
  note q = example_query [of "Inr (py ''Paris.'')"]
  have d: "res_documents example_retrieval \<noteq> []" by (simp add: example_retrieval_def)
  have g: "generate_answer ?b (py ''Why?'') (create_context (res_documents example_retrieval))
             [GetOrCreateCollection (py ''subject_'' @ py ''s1''), Count (py ''subject_'' @ py ''s1''),
              Encode [py ''Why?''], Count (py ''subject_'' @ py ''s1''),
              Query (py ''subject_'' @ py ''s1'') [[0]] 5]
        = (Inr (py ''Paris.''),
           [GetOrCreateCollection (py ''subject_'' @ py ''s1''), Count (py ''subject_'' @ py ''s1''),
            Encode [py ''Why?''], Count (py ''subject_'' @ py ''s1''),
            Query (py ''subject_'' @ py ''s1'') [[0]] 5] @
           [Generate (build_prompt (py ''Why?'') (create_context (res_documents example_retrieval)))])"
    by (rule example_generate) (simp add: create_context_nonempty d)
  from answer_question_sources [OF q d g] q d show ?thesis
    by (auto simp: example_filenames)
qed

text \<open>
  An empty collection is the case in point: retrieval asks for the collection and its
  count, and nothing else is called.
\<close>

theorem answer_question_no_chunks_witness:
  "query_documents (fixed_backend (Inr 0) example_results (Inr (py ''Paris.'')))
       (py ''s1'') (py ''Why?'') 5 []
     = (Inr empty_retrieval,
        [GetOrCreateCollection (py ''subject_'' @ py ''s1''), Count (py ''subject_'' @ py ''s1'')]) \<and>
   res_documents empty_retrieval = [] \<and>
   answer_question (fixed_backend (Inr 0) example_results (Inr (py ''Paris.'')))
       (py ''s1'') (py ''Why?'') 5 []
     = (Inr \<lparr>ans_answer = sentinel, ans_sources = []\<rparr>,
        [GetOrCreateCollection (py ''subject_'' @ py ''s1''), Count (py ''subject_'' @ py ''s1'')])"
proof -
  have q: "query_documents (fixed_backend (Inr 0) example_results (Inr (py ''Paris.'')))
       (py ''s1'') (py ''Why?'') 5 []
     = (Inr empty_retrieval,
        [GetOrCreateCollection (py ''subject_'' @ py ''s1''), Count (py ''subject_'' @ py ''s1'')])"
    by (simp add: backend_eval)
  have d: "res_documents empty_retrieval = []" by (simp add: empty_retrieval_def)
  from answer_question_no_chunks [OF q d] q d show ?thesis by simp
qed

theorem answer_question_answer_not_degenerate_witness:
  "\<exists>result trace'.
     answer_question (fixed_backend (Inr 6) example_results (Inr (py ''Paris.'')))
       (py ''s1'') (py ''Why?'') 5 [] = (Inr result, trace') \<and>
     ans_answer result = py ''Paris.'' \<and>
     (ans_answer result = sentinel \<or> 3 \<le> length (strip (ans_answer result)))"
proof -
  let ?b = "fixed_backend (Inr 6) example_results (Inr (py ''Paris.''))"
  have d: "create_context (res_documents example_retrieval) \<noteq> []"
    by (simp add: create_context_nonempty example_retrieval_def)
  have run: "\<exists>result trace'.
      answer_question ?b (py ''s1'') (py ''Why?'') 5 [] = (Inr result, trace') \<and>
      ans_answer result = py ''Paris.''"
    using example_query [of "Inr (py ''Paris.'')"] d
    by (simp add: answer_question_def io_bind_def io_return_def Let_def example_generate)
       (simp add: example_retrieval_def)
  then obtain result trace' where
    r: "answer_question ?b (py ''s1'') (py ''Why?'') 5 [] = (Inr result, trace')"
       "ans_answer result = py ''Paris.''"
    by blast
  from answer_question_answer_not_degenerate [OF r(1)] r show ?thesis by blast
qed

theorem ask_question_short_circuits_witness:
  "[py ''s1'' \<mapsto> \<lparr>subject_name = py ''Maths'', subject_documents = Some []\<rparr>]
       (req_subject_id \<lparr>req_subject_id = py ''s1'', req_question = py ''Why?''\<rparr>)
     = Some \<lparr>subject_name = py ''Maths'', subject_documents = Some []\<rparr> \<and>
   ask_question (fixed_backend (Inr 6) example_results (Inr (py ''Paris.'')))
       [py ''s1'' \<mapsto> \<lparr>subject_name = py ''Maths'', subject_documents = Some []\<rparr>]
       \<lparr>req_subject_id = py ''s1'', req_question = py ''Why?''\<rparr> []
     = (Inr \<lparr>resp_subject_id = py ''s1'', resp_question = py ''Why?'',
             resp_answer = sentinel, resp_sources = []\<rparr>, [])"
proof -
  have s: "[py ''s1'' \<mapsto> \<lparr>subject_name = py ''Maths'', subject_documents = Some []\<rparr>]
       (req_subject_id \<lparr>req_subject_id = py ''s1'', req_question = py ''Why?''\<rparr>)
     = Some \<lparr>subject_name = py ''Maths'', subject_documents = Some []\<rparr>"
    by simp
  have e: "subject_documents \<lparr>subject_name = py ''Maths'', subject_documents = Some []\<rparr> = None \<or>
           subject_documents \<lparr>subject_name = py ''Maths'', subject_documents = Some []\<rparr> = Some []"
    by simp
  from ask_question_short_circuits
      [where subjects = "[py ''s1'' \<mapsto> \<lparr>subject_name = py ''Maths'', subject_documents = Some []\<rparr>]"
         and request = "\<lparr>req_subject_id = py ''s1'', req_question = py ''Why?''\<rparr>"
         and subject = "\<lparr>subject_name = py ''Maths'', subject_documents = Some []\<rparr>"
         and b = "fixed_backend (Inr 6) example_results (Inr (py ''Paris.''))"
         and trace = "[]", OF s e] s
  show ?thesis by simp
qed

end
